theory Spec2Isabelle
  imports Main
begin

section \<open>Data model (store/models.py)\<close>

text \<open>
  The persistent state of the shop is a set of relational tables. A table that the
  views only read and write by primary key is a map from the key to the row; a table the
  views iterate over (\<open>cart.items.all()\<close>, \<open>order.items.all()\<close>) is the list of its rows
  in table order. Primary keys come from per-table counters, as the database's
  sequences do.

  A \<open>DecimalField(decimal_places=2)\<close> value is the integer number of hundredths of the
  currency unit, so decimal addition and multiplication by an integer quantity are the
  integer operations. A \<open>PositiveIntegerField\<close> is a Python \<open>int\<close> in the views, and it is
  an \<open>int\<close> here: that the views never store a negative number is a property to be
  proved, not a consequence of the type.

  Only the columns the cart and order views read or write are kept. The user profile
  columns and the shipping columns copied from them at checkout, the timestamps, and
  the notes, assignee and priority written by the administrator's order page carry no
  stock or price information and are left out.

  The views compute with Python's unbounded integers; a bound on a column is enforced
  when a row is saved. The bound that a view can reach is the upper end of the range of
  \<open>Product.stock\<close>: the views that cancel or delete an order raise a stock without any
  check, and \<open>product.save()\<close> raises an exception when the new value is more than the
  database accepts. The database is named in the project settings, which are not among
  the sources, so the upper end is a parameter, the field \<open>stock_max\<close> of the store
  (\<open>2 ^ 63 - 1\<close> on SQLite, \<open>2 ^ 31 - 1\<close> on PostgreSQL); no view changes it. The lower
  end of the range is not made a failure of the model: that no view writes a negative
  stock is proved. The other bounds (\<open>max_digits\<close>, \<open>max_length\<close>) are not modelled.

  A lookup by primary key or by a unique column returns the first matching row;
  \<open>cart.items.all()\<close> and \<open>order.items.all()\<close> return the matching rows in table order.
\<close>

type_synonym decimal = int

record product =
  p_name :: string
  p_price :: decimal
  p_stock :: int

record cart_item =
  ci_id :: nat
  ci_cart :: nat
  ci_product :: nat
  ci_quantity :: int

record order =
  o_user :: nat
  o_status :: string
  o_delivery_method :: string
  o_payment_method :: string
  o_total_price :: decimal

record order_item =
  oi_order :: nat
  oi_product :: nat
  oi_quantity :: int
  oi_price :: decimal

text \<open>
  \<open>carts\<close> maps a user to the primary key of that user's cart: \<open>Cart.user\<close> is a
  one-to-one field, so a user has at most one cart.
\<close>

record store =
  stock_max :: int
  products :: "nat \<rightharpoonup> product"
  carts :: "nat \<rightharpoonup> nat"
  next_cart_id :: nat
  cart_items :: "cart_item list"
  next_cart_item_id :: nat
  orders :: "nat \<rightharpoonup> order"
  next_order_id :: nat
  order_items :: "order_item list"

section \<open>Outcomes of a view\<close>

text \<open>
  A view reports a failure as an error message followed by a redirect. The messages that
  name a product carry \<open>product.name\<close>. \<open>NotFound\<close> is the 404 of \<open>get_object_or_404\<close>;
  \<open>DoesNotExist\<close> is the exception raised when a foreign key is followed to a row that is
  not there; \<open>OutOfRange\<close> is the exception raised by \<open>product.save()\<close> when the stock to
  be stored is above \<open>stock_max\<close>. Every \<open>save()\<close> is committed at once, so a view that stops with an error
  leaves the store as it was at that moment: every operation returns its outcome
  together with the store it leaves behind.

  The cart and order views run for a logged-in user (\<open>login_required\<close>), given as the
  \<open>user\<close> argument; the administrator's views run behind \<open>user_passes_test(is_admin)\<close>,
  a check made before the view is entered.
\<close>

datatype error =
    OutOfStock string
  | InsufficientStock string
  | EmptyCart
  | InvalidTransition
  | NotFound
  | DoesNotExist
  | OutOfRange

section \<open>Cart mutation (store/views.py: add_to_cart, remove_from_cart, update_cart_item)\<close>

text \<open>\<open>Cart.objects.get_or_create(user=request.user)\<close>\<close>

definition get_or_create_cart :: "store \<Rightarrow> nat \<Rightarrow> nat \<times> store" where
  "get_or_create_cart s user =
     (case carts s user of
        Some cart \<Rightarrow> (cart, s)
      | None \<Rightarrow>
          (next_cart_id s,
           s\<lparr>carts := (carts s)(user \<mapsto> next_cart_id s),
             next_cart_id := Suc (next_cart_id s)\<rparr>))"

text \<open>
  \<open>CartItem.objects.get_or_create(cart=cart, product=product)\<close>; a created row has the
  field default \<open>quantity = 1\<close>. The result is the row, the \<open>created\<close> flag and the store.
\<close>

definition get_or_create_cart_item :: "store \<Rightarrow> nat \<Rightarrow> nat \<Rightarrow> cart_item \<times> bool \<times> store" where
  "get_or_create_cart_item s cart product_id =
     (case find (\<lambda>i. ci_cart i = cart \<and> ci_product i = product_id) (cart_items s) of
        Some cart_item \<Rightarrow> (cart_item, False, s)
      | None \<Rightarrow>
          (let cart_item = \<lparr>ci_id = next_cart_item_id s, ci_cart = cart,
                            ci_product = product_id, ci_quantity = 1\<rparr>
           in (cart_item, True,
               s\<lparr>cart_items := cart_items s @ [cart_item],
                 next_cart_item_id := Suc (next_cart_item_id s)\<rparr>)))"

text \<open>\<open>cart_item.save()\<close> and \<open>cart_item.delete()\<close>: update, or delete, by primary key.\<close>

definition save_cart_item :: "cart_item \<Rightarrow> store \<Rightarrow> store" where
  "save_cart_item cart_item s =
     s\<lparr>cart_items := map (\<lambda>i. if ci_id i = ci_id cart_item then cart_item else i) (cart_items s)\<rparr>"

definition delete_cart_item :: "cart_item \<Rightarrow> store \<Rightarrow> store" where
  "delete_cart_item cart_item s =
     s\<lparr>cart_items := filter (\<lambda>i. ci_id i \<noteq> ci_id cart_item) (cart_items s)\<rparr>"

text \<open>\<open>get_object_or_404(CartItem, id=item_id, cart__user=request.user)\<close>\<close>

definition get_cart_item :: "store \<Rightarrow> nat \<Rightarrow> nat \<Rightarrow> cart_item option" where
  "get_cart_item s user item_id =
     find (\<lambda>i. ci_id i = item_id \<and> carts s user = Some (ci_cart i)) (cart_items s)"

definition add_to_cart :: "store \<Rightarrow> nat \<Rightarrow> nat \<Rightarrow> (error + unit) \<times> store" where
  "add_to_cart s user product_id =
     (case products s product_id of
        None \<Rightarrow> (Inl NotFound, s)
      | Some product \<Rightarrow>
          if p_stock product \<le> 0 then (Inl (OutOfStock (p_name product)), s)
          else
            (case get_or_create_cart s user of (cart, s1) \<Rightarrow>
             case get_or_create_cart_item s1 cart product_id of (cart_item, created, s2) \<Rightarrow>
               if \<not> created then
                 (if ci_quantity cart_item + 1 > p_stock product
                  then (Inl (InsufficientStock (p_name product)), s2)
                  else (Inr (),
                        save_cart_item (cart_item\<lparr>ci_quantity := ci_quantity cart_item + 1\<rparr>) s2))
               else
                 (if ci_quantity cart_item > p_stock product
                  then (Inl (InsufficientStock (p_name product)), delete_cart_item cart_item s2)
                  else (Inr (), s2))))"

definition remove_from_cart :: "store \<Rightarrow> nat \<Rightarrow> nat \<Rightarrow> (error + unit) \<times> store" where
  "remove_from_cart s user item_id =
     (case get_cart_item s user item_id of
        None \<Rightarrow> (Inl NotFound, s)
      | Some cart_item \<Rightarrow> (Inr (), delete_cart_item cart_item s))"

text \<open>\<open>quantity\<close> is \<open>int(request.POST.get('quantity', 1))\<close>, any integer.\<close>

definition update_cart_item :: "store \<Rightarrow> nat \<Rightarrow> nat \<Rightarrow> int \<Rightarrow> (error + unit) \<times> store" where
  "update_cart_item s user item_id quantity =
     (case get_cart_item s user item_id of
        None \<Rightarrow> (Inl NotFound, s)
      | Some cart_item \<Rightarrow>
          (case products s (ci_product cart_item) of
             None \<Rightarrow> (Inl DoesNotExist, s)
           | Some product \<Rightarrow>
               if quantity > p_stock product
               then (Inl (InsufficientStock (p_name product)), s)
               else if quantity > 0
               then (Inr (), save_cart_item (cart_item\<lparr>ci_quantity := quantity\<rparr>) s)
               else (Inr (), delete_cart_item cart_item s)))"

section \<open>Checkout (store/views.py: checkout)\<close>

text \<open>
  The part of the request the view reads: the method, and the two POST fields
  (\<open>None\<close> when the field is absent from the form data). The POST branch also copies
  the name and address fields of the form into the user's profile before it creates the
  order; those columns are not in the model.
\<close>

record request =
  is_post :: bool
  post_delivery_method :: "string option"
  post_payment_method :: "string option"

text \<open>A successful checkout view either shows the form (GET) or places an order (POST).\<close>

datatype checkout_result = CheckoutForm | OrderPlaced nat

text \<open>\<open>cart.items.all()\<close>\<close>

definition items_of_cart :: "store \<Rightarrow> nat \<Rightarrow> cart_item list" where
  "items_of_cart s cart = filter (\<lambda>i. ci_cart i = cart) (cart_items s)"

text \<open>The validation loop: the first line that asks for more than is in stock stops it.\<close>

fun check_stock :: "store \<Rightarrow> cart_item list \<Rightarrow> error option" where
  "check_stock s [] = None"
| "check_stock s (item # items) =
     (case products s (ci_product item) of
        None \<Rightarrow> Some DoesNotExist
      | Some product \<Rightarrow>
          if ci_quantity item > p_stock product
          then Some (InsufficientStock (p_name product))
          else check_stock s items)"

text \<open>
  \<open>Cart.total_price\<close>: the sum of \<open>item.product.price * item.quantity\<close> over the lines
  (\<open>CartItem.total_price\<close>).
\<close>

fun cart_total_price :: "store \<Rightarrow> cart_item list \<Rightarrow> error + decimal" where
  "cart_total_price s [] = Inr 0"
| "cart_total_price s (item # items) =
     (case products s (ci_product item) of
        None \<Rightarrow> Inl DoesNotExist
      | Some product \<Rightarrow>
          (case cart_total_price s items of
             Inl e \<Rightarrow> Inl e
           | Inr t \<Rightarrow> Inr (p_price product * ci_quantity item + t)))"

text \<open>The flat delivery fee, 500 currency units, in hundredths.\<close>

definition delivery_fee :: decimal where
  "delivery_fee = 500 * 100"

text \<open>
  The loop that creates one \<open>OrderItem\<close> per cart line and takes the line's quantity
  from the product's stock.
\<close>

fun create_order_items :: "nat \<Rightarrow> cart_item list \<Rightarrow> store \<Rightarrow> error option \<times> store" where
  "create_order_items order_id [] s = (None, s)"
| "create_order_items order_id (item # items) s =
     (case products s (ci_product item) of
        None \<Rightarrow> (Some DoesNotExist, s)
      | Some product \<Rightarrow>
          create_order_items order_id items
            (s\<lparr>order_items := order_items s @
                   [\<lparr>oi_order = order_id, oi_product = ci_product item,
                     oi_quantity = ci_quantity item, oi_price = p_price product\<rparr>],
               products := (products s)(ci_product item \<mapsto>
                   product\<lparr>p_stock := p_stock product - ci_quantity item\<rparr>)\<rparr>))"

definition checkout :: "store \<Rightarrow> nat \<Rightarrow> request \<Rightarrow> (error + checkout_result) \<times> store" where
  "checkout s user req =
     (case carts s user of
        None \<Rightarrow> (Inl NotFound, s)
      | Some cart \<Rightarrow>
          if items_of_cart s cart = [] then (Inl EmptyCart, s)
          else
            (case check_stock s (items_of_cart s cart) of
               Some e \<Rightarrow> (Inl e, s)
             | None \<Rightarrow>
                 if \<not> is_post req then (Inr CheckoutForm, s)
                 else
                   (case cart_total_price s (items_of_cart s cart) of
                      Inl e \<Rightarrow> (Inl e, s)
                    | Inr subtotal \<Rightarrow>
                        (let order_id = next_order_id s;
                             order = \<lparr>o_user = user, o_status = ''new'',
                                      o_delivery_method =
                                        (case post_delivery_method req of
                                           None \<Rightarrow> ''pickup'' | Some d \<Rightarrow> d),
                                      o_payment_method =
                                        (case post_payment_method req of
                                           None \<Rightarrow> ''online'' | Some p \<Rightarrow> p),
                                      o_total_price = subtotal +
                                        (if post_delivery_method req = Some ''delivery''
                                         then delivery_fee else 0)\<rparr>;
                             s1 = s\<lparr>orders := (orders s)(order_id \<mapsto> order),
                                    next_order_id := Suc order_id\<rparr>
                         in (case create_order_items order_id (items_of_cart s1 cart) s1 of
                               (Some e, s2) \<Rightarrow> (Inl e, s2)
                             | (None, s2) \<Rightarrow>
                                 (Inr (OrderPlaced order_id),
                                  s2\<lparr>cart_items :=
                                       filter (\<lambda>i. ci_cart i \<noteq> cart) (cart_items s2)\<rparr>))))))"

section \<open>Order status and stock reconciliation (cancel_order, admin_order_detail, admin_order_delete)\<close>

text \<open>\<open>order.items.all()\<close>\<close>

definition items_of_order :: "store \<Rightarrow> nat \<Rightarrow> order_item list" where
  "items_of_order s order_id = filter (\<lambda>i. oi_order i = order_id) (order_items s)"

text \<open>
  The loop \<open>product.stock += item.quantity; product.save()\<close>, which the three views that
  cancel or delete an order all contain. A save of a stock above \<open>stock_max\<close> raises;
  the lines before it have been saved already, and the view is left before it saves the
  order.
\<close>

fun return_to_stock :: "order_item list \<Rightarrow> store \<Rightarrow> error option \<times> store" where
  "return_to_stock [] s = (None, s)"
| "return_to_stock (item # items) s =
     (case products s (oi_product item) of
        None \<Rightarrow> (Some DoesNotExist, s)
      | Some product \<Rightarrow>
          if p_stock product + oi_quantity item > stock_max s
          then (Some OutOfRange, s)
          else return_to_stock items
                 (s\<lparr>products := (products s)(oi_product item \<mapsto>
                        product\<lparr>p_stock := p_stock product + oi_quantity item\<rparr>)\<rparr>))"

text \<open>
  The loop of \<open>admin_order_detail\<close> that restores a cancelled order: each line is checked
  against the stock and taken from it in the same iteration. This loop and the loop of
  \<open>checkout\<close> lower a stock by a quantity that is at most the stock, so their saves stay
  within the range.
\<close>

fun take_from_stock :: "order_item list \<Rightarrow> store \<Rightarrow> error option \<times> store" where
  "take_from_stock [] s = (None, s)"
| "take_from_stock (item # items) s =
     (case products s (oi_product item) of
        None \<Rightarrow> (Some DoesNotExist, s)
      | Some product \<Rightarrow>
          if oi_quantity item > p_stock product
          then (Some (InsufficientStock (p_name product)), s)
          else take_from_stock items
                 (s\<lparr>products := (products s)(oi_product item \<mapsto>
                        product\<lparr>p_stock := p_stock product - oi_quantity item\<rparr>)\<rparr>))"

text \<open>\<open>order.save()\<close>\<close>

definition save_order :: "nat \<Rightarrow> order \<Rightarrow> store \<Rightarrow> store" where
  "save_order order_id order s = s\<lparr>orders := (orders s)(order_id \<mapsto> order)\<rparr>"

text \<open>\<open>get_object_or_404(Order, id=order_id, user=request.user)\<close>\<close>

definition get_user_order :: "store \<Rightarrow> nat \<Rightarrow> nat \<Rightarrow> order option" where
  "get_user_order s user order_id =
     (case orders s order_id of
        None \<Rightarrow> None
      | Some order \<Rightarrow> if o_user order = user then Some order else None)"

definition cancel_order :: "store \<Rightarrow> nat \<Rightarrow> nat \<Rightarrow> (error + unit) \<times> store" where
  "cancel_order s user order_id =
     (case get_user_order s user order_id of
        None \<Rightarrow> (Inl NotFound, s)
      | Some order \<Rightarrow>
          if o_status order = ''new'' then
            (case return_to_stock (items_of_order s order_id) s of
               (Some e, s1) \<Rightarrow> (Inl e, s1)
             | (None, s1) \<Rightarrow>
                 (Inr (), save_order order_id (order\<lparr>o_status := ''cancelled''\<rparr>) s1))
          else (Inl InvalidTransition, s))"

text \<open>
  The POST branch of \<open>admin_order_detail\<close>; \<open>new_status\<close> is
  \<open>request.POST.get('status')\<close>, any string or \<open>None\<close>. The early \<open>return\<close> inside the
  restoring loop leaves the view before \<open>order.status\<close> is assigned and before
  \<open>order.save()\<close>. The notes, assignee and priority that the same form carries go to
  columns that are not in the model.
\<close>

definition admin_order_detail :: "store \<Rightarrow> nat \<Rightarrow> string option \<Rightarrow> (error + unit) \<times> store" where
  "admin_order_detail s order_id new_status =
     (case orders s order_id of
        None \<Rightarrow> (Inl NotFound, s)
      | Some order \<Rightarrow>
          (let old_status = o_status order in
           case new_status of
             None \<Rightarrow> (Inr (), save_order order_id order s)
           | Some ns \<Rightarrow>
               if ns \<noteq> [] \<and> ns \<noteq> old_status then
                 (if ns = ''cancelled'' \<and> old_status \<noteq> ''cancelled'' then
                    (case return_to_stock (items_of_order s order_id) s of
                       (Some e, s1) \<Rightarrow> (Inl e, s1)
                     | (None, s1) \<Rightarrow>
                         (Inr (), save_order order_id (order\<lparr>o_status := ns\<rparr>) s1))
                  else if old_status = ''cancelled'' \<and> ns \<noteq> ''cancelled'' then
                    (case take_from_stock (items_of_order s order_id) s of
                       (Some e, s1) \<Rightarrow> (Inl e, s1)
                     | (None, s1) \<Rightarrow>
                         (Inr (), save_order order_id (order\<lparr>o_status := ns\<rparr>) s1))
                  else (Inr (), save_order order_id (order\<lparr>o_status := ns\<rparr>) s))
               else (Inr (), save_order order_id order s)))"

text \<open>
  The POST branch of \<open>admin_order_delete\<close>; deleting the order deletes its lines
  (\<open>on_delete=CASCADE\<close>).
\<close>

definition admin_order_delete :: "store \<Rightarrow> nat \<Rightarrow> (error + unit) \<times> store" where
  "admin_order_delete s order_id =
     (case orders s order_id of
        None \<Rightarrow> (Inl NotFound, s)
      | Some order \<Rightarrow>
          (case (if o_status order \<noteq> ''cancelled''
                 then return_to_stock (items_of_order s order_id) s
                 else (None, s)) of
             (Some e, s1) \<Rightarrow> (Inl e, s1)
           | (None, s1) \<Rightarrow>
               (Inr (),
                s1\<lparr>orders := (orders s1)(order_id := None),
                   order_items := filter (\<lambda>i. oi_order i \<noteq> order_id) (order_items s1)\<rparr>)))"

section \<open>Notions used to state the properties\<close>

text \<open>A cart line asks for more than its product has in stock.\<close>

definition exceeds_stock :: "store \<Rightarrow> cart_item \<Rightarrow> bool" where
  "exceeds_stock s item =
     (case products s (ci_product item) of
        None \<Rightarrow> False
      | Some product \<Rightarrow> ci_quantity item > p_stock product)"

text \<open>An order line asks for more than its product has in stock.\<close>

definition short_of_stock :: "store \<Rightarrow> order_item \<Rightarrow> bool" where
  "short_of_stock s item =
     (case products s (oi_product item) of
        None \<Rightarrow> False
      | Some product \<Rightarrow> oi_quantity item > p_stock product)"

text \<open>The quantity that the given order lines hold of one product.\<close>

definition ordered_quantity :: "order_item list \<Rightarrow> nat \<Rightarrow> int" where
  "ordered_quantity items product_id =
     sum_list (map oi_quantity (filter (\<lambda>i. oi_product i = product_id) items))"

text \<open>
  The product table with \<open>f product_id\<close> added to the stock of every product; nothing
  else in a row changes.
\<close>

definition restocked :: "(nat \<Rightarrow> int) \<Rightarrow> (nat \<rightharpoonup> product) \<Rightarrow> (nat \<rightharpoonup> product)" where
  "restocked f m =
     (\<lambda>product_id. map_option (\<lambda>p. p\<lparr>p_stock := p_stock p + f product_id\<rparr>) (m product_id))"

text \<open>
  An order line is the frozen copy of a cart line: same product, same quantity, and the
  price the product has in store \<open>s\<close>.
\<close>

definition freezes :: "store \<Rightarrow> nat \<Rightarrow> cart_item \<Rightarrow> order_item \<Rightarrow> bool" where
  "freezes s order_id ci oi \<longleftrightarrow>
     oi_order oi = order_id \<and> oi_product oi = ci_product ci \<and>
     oi_quantity oi = ci_quantity ci \<and>
     map_option p_price (products s (ci_product ci)) = Some (oi_price oi)"

text \<open>The quantity that the given cart lines hold of one product.\<close>

definition cart_quantity :: "cart_item list \<Rightarrow> nat \<Rightarrow> int" where
  "cart_quantity items product_id =
     sum_list (map ci_quantity (filter (\<lambda>i. ci_product i = product_id) items))"

subsection \<open>Sequences of operations and the constraints of the schema\<close>

text \<open>
  The operations of the order engine, each with the arguments of its view; running one
  keeps the store it leaves and drops the response.
\<close>

datatype engine_op =
    AddToCart nat nat
  | UpdateCartItem nat nat int
  | RemoveFromCart nat nat
  | Checkout nat request
  | CancelOrder nat nat
  | AdminSetStatus nat "string option"
  | AdminDeleteOrder nat

fun apply_op :: "store \<Rightarrow> engine_op \<Rightarrow> store" where
  "apply_op s (AddToCart user product_id) = snd (add_to_cart s user product_id)"
| "apply_op s (UpdateCartItem user item_id quantity) =
     snd (update_cart_item s user item_id quantity)"
| "apply_op s (RemoveFromCart user item_id) = snd (remove_from_cart s user item_id)"
| "apply_op s (Checkout user req) = snd (checkout s user req)"
| "apply_op s (CancelOrder user order_id) = snd (cancel_order s user order_id)"
| "apply_op s (AdminSetStatus order_id new_status) =
     snd (admin_order_detail s order_id new_status)"
| "apply_op s (AdminDeleteOrder order_id) = snd (admin_order_delete s order_id)"

text \<open>Every product's stock is at least zero.\<close>

definition stock_nonneg :: "store \<Rightarrow> bool" where
  "stock_nonneg s \<longleftrightarrow> (\<forall>product_id p. products s product_id = Some p \<longrightarrow> 0 \<le> p_stock p)"

text \<open>
  What models.py declares about cart and order lines: the primary key of \<open>CartItem\<close> is
  unique and comes from the table's counter, \<open>unique_together = ('cart', 'product')\<close>,
  and both \<open>quantity\<close> columns are \<open>PositiveIntegerField\<close>s.
\<close>

definition lines_ok :: "store \<Rightarrow> bool" where
  "lines_ok s \<longleftrightarrow>
     distinct (map ci_id (cart_items s)) \<and>
     (\<forall>i\<in>set (cart_items s). ci_id i < next_cart_item_id s) \<and>
     distinct (map (\<lambda>i. (ci_cart i, ci_product i)) (cart_items s)) \<and>
     (\<forall>i\<in>set (cart_items s). 0 \<le> ci_quantity i) \<and>
     (\<forall>i\<in>set (order_items s). 0 \<le> oi_quantity i)"

definition store_ok :: "store \<Rightarrow> bool" where
  "store_ok s \<longleftrightarrow> stock_nonneg s \<and> lines_ok s"

subsection \<open>A small shop, for concrete runs\<close>

text \<open>
  Three products (prices 1250.00, 899.50 and 310.00), one user, number 7, whose cart
  holds two lines, and one order of that user with two lines; the stock column takes
  integers up to \<open>2 ^ 63 - 1\<close>.
\<close>

definition demo_products :: "nat \<rightharpoonup> product" where
  "demo_products =
     [1 \<mapsto> \<lparr>p_name = ''Linen'', p_price = 125000, p_stock = 3\<rparr>,
      2 \<mapsto> \<lparr>p_name = ''Vinyl'', p_price = 89950, p_stock = 5\<rparr>,
      3 \<mapsto> \<lparr>p_name = ''Cork'', p_price = 31000, p_stock = 0\<rparr>]"

definition demo_order :: "string \<Rightarrow> order" where
  "demo_order st =
     \<lparr>o_user = 7, o_status = st, o_delivery_method = ''pickup'',
      o_payment_method = ''cod'', o_total_price = 339950\<rparr>"

definition demo :: store where
  "demo =
     \<lparr>stock_max = 9223372036854775807,
      products = demo_products,
      carts = [7 \<mapsto> 1],
      next_cart_id = 2,
      cart_items =
        [\<lparr>ci_id = 1, ci_cart = 1, ci_product = 1, ci_quantity = 2\<rparr>,
         \<lparr>ci_id = 2, ci_cart = 1, ci_product = 2, ci_quantity = 1\<rparr>],
      next_cart_item_id = 3,
      orders = [1 \<mapsto> demo_order ''new''],
      next_order_id = 2,
      order_items =
        [\<lparr>oi_order = 1, oi_product = 1, oi_quantity = 2, oi_price = 125000\<rparr>,
         \<lparr>oi_order = 1, oi_product = 2, oi_quantity = 1, oi_price = 89950\<rparr>]\<rparr>"

text \<open>
  The same shop with order 1 cancelled, its lines asking for 2 Linen (3 in stock) and
  4 Cork (none in stock).
\<close>

definition demo_cancelled :: store where
  "demo_cancelled =
     demo\<lparr>orders := [1 \<mapsto> demo_order ''cancelled''],
          order_items :=
            [\<lparr>oi_order = 1, oi_product = 1, oi_quantity = 2, oi_price = 125000\<rparr>,
             \<lparr>oi_order = 1, oi_product = 3, oi_quantity = 4, oi_price = 31000\<rparr>]\<rparr>"

text \<open>
  The same shop with the stock of Vinyl at the upper end of the column's range, a value
  the product form accepts. Order 1, in status \<open>new\<close>, holds 2 Linen and 1 Vinyl.
\<close>

definition demo_full :: store where
  "demo_full =
     demo\<lparr>products := demo_products(2 \<mapsto>
            \<lparr>p_name = ''Vinyl'', p_price = 89950, p_stock = 9223372036854775807\<rparr>)\<rparr>"

text \<open>A POST of the checkout form that asks for delivery and names no payment method.\<close>

definition demo_post :: request where
  "demo_post = \<lparr>is_post = True, post_delivery_method = Some ''delivery'',
                 post_payment_method = None\<rparr>"

section \<open>Auxiliary facts about lists\<close>

lemma find_Some_mem: "find P xs = Some x \<Longrightarrow> x \<in> set xs \<and> P x"
  by (induction xs) (auto split: if_splits)

lemma find_None_all: "find P xs = None \<longleftrightarrow> (\<forall>x\<in>set xs. \<not> P x)"
  by (induction xs) auto

section \<open>Stock ceiling of the cart\<close>

text \<open>
  Saving a changed copy of the line that a lookup finds makes the same lookup find the
  changed copy.
\<close>

lemma find_after_save:
  assumes "find P xs = Some item" and "P item'" and "ci_id item' = ci_id item"
  shows "find P (map (\<lambda>i. if ci_id i = ci_id item' then item' else i) xs) = Some item'"
  using assms by (induction xs) (auto split: if_splits)

text \<open>
  C9. \<open>add_to_cart\<close> on a product whose stock is zero or less fails with \<open>OutOfStock\<close>
  and leaves the store as it was, so no cart line is created. When the user's cart
  already holds a line for the product, the line's quantity goes up by one if the raised
  quantity is within the stock; otherwise the view fails with \<open>InsufficientStock\<close> and
  the store, the line's quantity included, is as it was.
\<close>

theorem add_to_cart_stock_ceiling:
  assumes product: "products s product_id = Some product"
  shows "(p_stock product \<le> 0 \<longrightarrow>
            add_to_cart s user product_id = (Inl (OutOfStock (p_name product)), s))
       \<and> (0 < p_stock product \<longrightarrow> carts s user = Some cart \<longrightarrow>
            find (\<lambda>i. ci_cart i = cart \<and> ci_product i = product_id) (cart_items s) = Some item \<longrightarrow>
            (if ci_quantity item + 1 \<le> p_stock product
             then add_to_cart s user product_id =
                    (Inr (), save_cart_item (item\<lparr>ci_quantity := ci_quantity item + 1\<rparr>) s)
                \<and> find (\<lambda>i. ci_cart i = cart \<and> ci_product i = product_id)
                     (cart_items (snd (add_to_cart s user product_id)))
                   = Some (item\<lparr>ci_quantity := ci_quantity item + 1\<rparr>)
             else add_to_cart s user product_id =
                    (Inl (InsufficientStock (p_name product)), s)))"
proof (intro conjI impI)
  assume "p_stock product \<le> 0"
  with product show "add_to_cart s user product_id = (Inl (OutOfStock (p_name product)), s)"
    by (simp add: add_to_cart_def)
next
  let ?P = "\<lambda>i. ci_cart i = cart \<and> ci_product i = product_id"
  let ?item' = "item\<lparr>ci_quantity := ci_quantity item + 1\<rparr>"
  assume stock: "0 < p_stock product" and cart: "carts s user = Some cart"
    and found: "find ?P (cart_items s) = Some item"
  from found have "?P ?item'" by (auto dest: find_Some_mem)
  with found have lookup:
    "find ?P (cart_items (save_cart_item ?item' s)) = Some ?item'"
    using find_after_save [of ?P "cart_items s" item ?item']
    by (simp add: save_cart_item_def)
  from product stock cart found lookup
  show "if ci_quantity item + 1 \<le> p_stock product
        then add_to_cart s user product_id = (Inr (), save_cart_item ?item' s)
           \<and> find ?P (cart_items (snd (add_to_cart s user product_id))) = Some ?item'
        else add_to_cart s user product_id = (Inl (InsufficientStock (p_name product)), s)"
    by (simp add: add_to_cart_def get_or_create_cart_def get_or_create_cart_item_def)
qed

text \<open>
  The three cases on the small shop: Cork is out of stock; a second Vinyl fits the
  stock of 5; a fourth Linen does not fit the stock of 3.
\<close>

theorem add_to_cart_stock_ceiling_witness:
  "add_to_cart demo 7 3 = (Inl (OutOfStock ''Cork''), demo)
   \<and> cart_items (snd (add_to_cart demo 7 2)) =
       [\<lparr>ci_id = 1, ci_cart = 1, ci_product = 1, ci_quantity = 2\<rparr>,
        \<lparr>ci_id = 2, ci_cart = 1, ci_product = 2, ci_quantity = 2\<rparr>]
   \<and> add_to_cart
        (demo\<lparr>cart_items := [\<lparr>ci_id = 1, ci_cart = 1, ci_product = 1, ci_quantity = 3\<rparr>]\<rparr>) 7 1
       = (Inl (InsufficientStock ''Linen''),
          demo\<lparr>cart_items := [\<lparr>ci_id = 1, ci_cart = 1, ci_product = 1, ci_quantity = 3\<rparr>]\<rparr>)"
  using
    add_to_cart_stock_ceiling [of demo 3 "\<lparr>p_name = ''Cork'', p_price = 31000, p_stock = 0\<rparr>" 7]
    add_to_cart_stock_ceiling [of demo 2 "\<lparr>p_name = ''Vinyl'', p_price = 89950, p_stock = 5\<rparr>" 7 1
      "\<lparr>ci_id = 2, ci_cart = 1, ci_product = 2, ci_quantity = 1\<rparr>"]
    add_to_cart_stock_ceiling
      [of "demo\<lparr>cart_items := [\<lparr>ci_id = 1, ci_cart = 1, ci_product = 1, ci_quantity = 3\<rparr>]\<rparr>" 1
          "\<lparr>p_name = ''Linen'', p_price = 125000, p_stock = 3\<rparr>" 7 1
          "\<lparr>ci_id = 1, ci_cart = 1, ci_product = 1, ci_quantity = 3\<rparr>"]
  by (simp add: demo_def demo_products_def save_cart_item_def)

text \<open>
  C10. When the product passes the \<open>OutOfStock\<close> guard and the user's cart (the existing
  one, or the one \<open>get_or_create\<close> makes) holds no line for it, \<open>add_to_cart\<close> succeeds:
  the line it creates has quantity 1, which is within the stock, and stays in the
  store; the branch that deletes the created line and reports \<open>InsufficientStock\<close> is
  not taken.
\<close>

theorem add_to_cart_new_line:
  assumes product: "products s product_id = Some product"
    and guard: "0 < p_stock product"
    and cart: "get_or_create_cart s user = (cart, s1)"
    and absent: "find (\<lambda>i. ci_cart i = cart \<and> ci_product i = product_id) (cart_items s1) = None"
  shows "\<exists>cart_item.
           cart_item = \<lparr>ci_id = next_cart_item_id s1, ci_cart = cart,
                        ci_product = product_id, ci_quantity = 1\<rparr> \<and>
           ci_quantity cart_item \<le> p_stock product \<and>
           add_to_cart s user product_id =
             (Inr (), s1\<lparr>cart_items := cart_items s1 @ [cart_item],
                         next_cart_item_id := Suc (next_cart_item_id s1)\<rparr>)"
  using assms
  by (simp add: add_to_cart_def get_or_create_cart_item_def Let_def)

text \<open>User 8 has no cart yet: the cart and its first line are both created.\<close>

theorem add_to_cart_new_line_witness:
  "products demo 1 = Some \<lparr>p_name = ''Linen'', p_price = 125000, p_stock = 3\<rparr>
   \<and> get_or_create_cart demo 8 = (2, demo\<lparr>carts := [7 \<mapsto> 1, 8 \<mapsto> 2], next_cart_id := 3\<rparr>)
   \<and> fst (add_to_cart demo 8 1) = Inr ()
   \<and> cart_items (snd (add_to_cart demo 8 1)) =
       cart_items demo @ [\<lparr>ci_id = 3, ci_cart = 2, ci_product = 1, ci_quantity = 1\<rparr>]"
proof -
  have p: "products demo 1 = Some \<lparr>p_name = ''Linen'', p_price = 125000, p_stock = 3\<rparr>"
    by (simp add: demo_def demo_products_def)
  have c: "get_or_create_cart demo 8 = (2, demo\<lparr>carts := [7 \<mapsto> 1, 8 \<mapsto> 2], next_cart_id := 3\<rparr>)"
    by (simp add: demo_def get_or_create_cart_def)
  have a: "find (\<lambda>i. ci_cart i = 2 \<and> ci_product i = 1)
             (cart_items (demo\<lparr>carts := [7 \<mapsto> 1, 8 \<mapsto> 2], next_cart_id := 3\<rparr>)) = None"
    by (simp add: demo_def)
  from add_to_cart_new_line [OF p _ c a] p c show ?thesis
    by (simp add: demo_def)
qed

section \<open>Checkout\<close>

text \<open>
  On a cart whose lines all refer to existing products, the validation loop reports
  the first line that exceeds its product's stock.
\<close>

lemma check_stock_first:
  assumes "\<forall>i\<in>set items. products s (ci_product i) \<noteq> None"
  shows "check_stock s items =
           (case find (exceeds_stock s) items of
              None \<Rightarrow> None
            | Some i \<Rightarrow> map_option (\<lambda>p. InsufficientStock (p_name p)) (products s (ci_product i)))"
  using assms by (induction items) (auto simp: exceeds_stock_def split: option.splits)

text \<open>
  C2. If the user's cart has a line whose quantity exceeds its product's stock, checkout
  (GET or POST) fails with \<open>InsufficientStock\<close> naming the product of the first such
  line, and the store it leaves is the store it found: no order, no order line, every
  stock and every cart line as before. The cart's lines refer to existing products, as
  the foreign key requires.
\<close>

theorem checkout_insufficient_stock:
  assumes cart: "carts s user = Some cart"
    and fk: "\<forall>i\<in>set (items_of_cart s cart). products s (ci_product i) \<noteq> None"
    and line: "item \<in> set (items_of_cart s cart)"
    and exceeds: "exceeds_stock s item"
  shows "\<exists>first product.
           find (exceeds_stock s) (items_of_cart s cart) = Some first \<and>
           products s (ci_product first) = Some product \<and>
           p_stock product < ci_quantity first \<and>
           checkout s user req = (Inl (InsufficientStock (p_name product)), s)"
proof -
  from line exceeds obtain first where
    first: "find (exceeds_stock s) (items_of_cart s cart) = Some first"
    by (cases "find (exceeds_stock s) (items_of_cart s cart)") (auto simp: find_None_all)
  then have mem: "first \<in> set (items_of_cart s cart)" and ex: "exceeds_stock s first"
    by (auto dest: find_Some_mem)
  from mem fk obtain product where p: "products s (ci_product first) = Some product"
    by auto
  with ex have less: "p_stock product < ci_quantity first"
    by (simp add: exceeds_stock_def)
  from line have ne: "items_of_cart s cart \<noteq> []" by auto
  have "check_stock s (items_of_cart s cart) = Some (InsufficientStock (p_name product))"
    using check_stock_first [OF fk] first p by simp
  with cart ne have "checkout s user req = (Inl (InsufficientStock (p_name product)), s)"
    by (simp add: checkout_def)
  with first p less show ?thesis by blast
qed

text \<open>The cart holds 5 Linen and the stock is 3: the POST is rejected, nothing changes.\<close>

theorem checkout_insufficient_stock_witness:
  "checkout
     (demo\<lparr>cart_items := [\<lparr>ci_id = 1, ci_cart = 1, ci_product = 1, ci_quantity = 5\<rparr>]\<rparr>) 7
     \<lparr>is_post = True, post_delivery_method = Some ''delivery'', post_payment_method = None\<rparr>
   = (Inl (InsufficientStock ''Linen''),
      demo\<lparr>cart_items := [\<lparr>ci_id = 1, ci_cart = 1, ci_product = 1, ci_quantity = 5\<rparr>]\<rparr>)"
  using checkout_insufficient_stock
    [of "demo\<lparr>cart_items := [\<lparr>ci_id = 1, ci_cart = 1, ci_product = 1, ci_quantity = 5\<rparr>]\<rparr>" 7 1
        "\<lparr>ci_id = 1, ci_cart = 1, ci_product = 1, ci_quantity = 5\<rparr>"
        "\<lparr>is_post = True, post_delivery_method = Some ''delivery'', post_payment_method = None\<rparr>"]
  by (simp add: demo_def demo_products_def items_of_cart_def exceeds_stock_def)

subsection \<open>A checkout that places an order\<close>

lemma cart_quantity_Cons:
  "cart_quantity (i # items) product_id =
     (if ci_product i = product_id then ci_quantity i else 0) + cart_quantity items product_id"
  by (simp add: cart_quantity_def)

lemma cart_quantity_absent:
  "product_id \<notin> ci_product ` set items \<Longrightarrow> cart_quantity items product_id = 0"
  by (induction items) (auto simp: cart_quantity_def)

lemma cart_quantity_distinct:
  "distinct (map ci_product items) \<Longrightarrow> i \<in> set items \<Longrightarrow>
     cart_quantity items (ci_product i) = ci_quantity i"
proof (induction items)
  case Nil
  then show ?case by simp
next
  case (Cons j items)
  show ?case
  proof (cases "i = j")
    case True
    with Cons.prems show ?thesis
      by (simp add: cart_quantity_Cons cart_quantity_absent)
  next
    case False
    with Cons.prems have mem: "i \<in> set items" by simp
    with Cons.prems have "ci_product j \<noteq> ci_product i" by (metis distinct.simps(2) image_eqI list.simps(9) set_map)
    with Cons mem show ?thesis by (simp add: cart_quantity_Cons)
  qed
qed

lemma check_stock_None:
  "check_stock s items = None \<longleftrightarrow>
     (\<forall>i\<in>set items. \<exists>p. products s (ci_product i) = Some p \<and> ci_quantity i \<le> p_stock p)"
  by (induction items) (auto split: option.splits)

lemma cart_total_price_sum:
  "cart_total_price s items = Inr t \<Longrightarrow>
     \<exists>ps. map (\<lambda>i. products s (ci_product i)) items = map Some ps \<and>
          t = (\<Sum>(i, p)\<leftarrow>zip items ps. ci_quantity i * p_price p)"
proof (induction items arbitrary: t)
  case Nil
  then show ?case by simp
next
  case (Cons i items)
  from Cons.prems obtain p t' where p: "products s (ci_product i) = Some p"
    and t': "cart_total_price s items = Inr t'" and t: "t = p_price p * ci_quantity i + t'"
    by (auto split: option.splits sum.splits)
  from Cons.IH [OF t'] obtain ps where
    ps: "map (\<lambda>i. products s (ci_product i)) items = map Some ps"
    and sum: "t' = (\<Sum>(i, p)\<leftarrow>zip items ps. ci_quantity i * p_price p)" by blast
  have "map (\<lambda>i. products s (ci_product i)) (i # items) = map Some (p # ps)"
    using p ps by simp
  moreover have "t = (\<Sum>(i, p)\<leftarrow>zip (i # items) (p # ps). ci_quantity i * p_price p)"
    using t sum by (simp add: mult.commute)
  ultimately show ?case by blast
qed


lemma create_order_items_orders [simp]:
  "orders (snd (create_order_items order_id items s)) = orders s"
  by (induction items arbitrary: s) (auto split: option.splits)

lemma create_order_items_eq:
  assumes "\<forall>i\<in>set items. products s (ci_product i) \<noteq> None"
  shows "\<exists>new. list_all2 (freezes s order_id) items new \<and>
           create_order_items order_id items s =
             (None, s\<lparr>order_items := order_items s @ new,
                      products := restocked (\<lambda>x. - cart_quantity items x) (products s)\<rparr>)"
  using assms
proof (induction items arbitrary: s)
  case Nil
  then show ?case by (simp add: cart_quantity_def restocked_def option.map_ident)
next
  case (Cons i items)
  then obtain p where p: "products s (ci_product i) = Some p" by auto
  define x where "x = \<lparr>oi_order = order_id, oi_product = ci_product i,
                        oi_quantity = ci_quantity i, oi_price = p_price p\<rparr>"
  define s1 where
    "s1 = s\<lparr>order_items := order_items s @ [x],
            products := (products s)(ci_product i \<mapsto> p\<lparr>p_stock := p_stock p - ci_quantity i\<rparr>)\<rparr>"
  have p1: "products s1 = (products s)(ci_product i \<mapsto> p\<lparr>p_stock := p_stock p - ci_quantity i\<rparr>)"
    and o1: "order_items s1 = order_items s @ [x]"
    and upd: "\<And>X Y. s1\<lparr>order_items := X, products := Y\<rparr> = s\<lparr>order_items := X, products := Y\<rparr>"
    by (simp_all add: s1_def)
  have step: "create_order_items order_id (i # items) s = create_order_items order_id items s1"
    using p by (simp add: s1_def x_def)
  have fk: "\<forall>j\<in>set items. products s1 (ci_product j) \<noteq> None"
    using Cons.prems by (simp add: p1)
  from Cons.IH [OF fk] obtain new where
    new: "list_all2 (freezes s1 order_id) items new"
    and run: "create_order_items order_id items s1 =
             (None, s1\<lparr>order_items := order_items s1 @ new,
                       products := restocked (\<lambda>x. - cart_quantity items x) (products s1)\<rparr>)"
    by blast
  have price: "\<And>k. map_option p_price (products s1 k) = map_option p_price (products s k)"
    using p by (simp add: p1)
  then have "freezes s1 order_id = freezes s order_id"
    by (simp add: freezes_def fun_eq_iff)
  with new have "list_all2 (freezes s order_id) items new" by simp
  moreover have "freezes s order_id i x"
    using p by (simp add: freezes_def x_def)
  ultimately have all: "list_all2 (freezes s order_id) (i # items) (x # new)" by simp
  have "restocked (\<lambda>x. - cart_quantity items x) (products s1) =
        restocked (\<lambda>x. - cart_quantity (i # items) x) (products s)"
    using p by (auto simp: p1 restocked_def fun_eq_iff cart_quantity_Cons)
  with run have "create_order_items order_id items s1 =
      (None, s\<lparr>order_items := order_items s @ (x # new),
                products := restocked (\<lambda>x. - cart_quantity (i # items) x) (products s)\<rparr>)"
    by (simp add: upd o1)
  with step all show ?case by metis
qed


text \<open>The small shop after user 7 has posted the checkout form.\<close>

lemma demo_checkout:
  "checkout demo 7 demo_post =
     (Inr (OrderPlaced 2),
      demo\<lparr>products :=
             [1 \<mapsto> \<lparr>p_name = ''Linen'', p_price = 125000, p_stock = 1\<rparr>,
              2 \<mapsto> \<lparr>p_name = ''Vinyl'', p_price = 89950, p_stock = 4\<rparr>,
              3 \<mapsto> \<lparr>p_name = ''Cork'', p_price = 31000, p_stock = 0\<rparr>],
           cart_items := [],
           orders := [1 \<mapsto> demo_order ''new'',
                      2 \<mapsto> \<lparr>o_user = 7, o_status = ''new'', o_delivery_method = ''delivery'',
                             o_payment_method = ''online'', o_total_price = 389950\<rparr>],
           next_order_id := 3,
           order_items := order_items demo @
             [\<lparr>oi_order = 2, oi_product = 1, oi_quantity = 2, oi_price = 125000\<rparr>,
              \<lparr>oi_order = 2, oi_product = 2, oi_quantity = 1, oi_price = 89950\<rparr>]\<rparr>)"
  apply (simp add: checkout_def demo_def demo_post_def demo_products_def items_of_cart_def
      delivery_fee_def Let_def)
  apply (rule ext)
  apply simp
  done


text \<open>
  C4. Whenever \<open>checkout\<close> places an order, the order stored under the returned
  identifier has as \<open>total_price\<close> the sum, over the lines of the user's cart, of the
  line's quantity times the price its product has in the store at checkout time, plus
  the flat delivery fee exactly when the order's \<open>delivery_method\<close> is \<open>delivery\<close>.
  (\<open>ps\<close> lists the product rows of the cart lines.)
\<close>

theorem checkout_total_price:
  assumes placed: "checkout s user req = (Inr (OrderPlaced order_id), s')"
  shows "\<exists>cart order ps.
           carts s user = Some cart \<and>
           orders s' order_id = Some order \<and>
           map (\<lambda>i. products s (ci_product i)) (items_of_cart s cart) = map Some ps \<and>
           o_total_price order =
             (\<Sum>(i, p)\<leftarrow>zip (items_of_cart s cart) ps. ci_quantity i * p_price p) +
             (if o_delivery_method order = ''delivery'' then delivery_fee else 0)"
proof -
  from placed obtain cart where cart: "carts s user = Some cart"
    by (cases "carts s user") (simp_all add: checkout_def)
  let ?items = "items_of_cart s cart"
  from placed cart have nonempty: "?items \<noteq> []" and valid: "check_stock s ?items = None"
    and post: "is_post req"
    by (auto simp: checkout_def split: if_splits option.splits)
  from placed cart nonempty valid post obtain subtotal where
    subtotal: "cart_total_price s ?items = Inr subtotal"
    by (cases "cart_total_price s ?items") (simp_all add: checkout_def)
  define order where
    "order = \<lparr>o_user = user, o_status = ''new'',
              o_delivery_method = (case post_delivery_method req of None \<Rightarrow> ''pickup'' | Some d \<Rightarrow> d),
              o_payment_method = (case post_payment_method req of None \<Rightarrow> ''online'' | Some p \<Rightarrow> p),
              o_total_price = subtotal +
                (if post_delivery_method req = Some ''delivery'' then delivery_fee else 0)\<rparr>"
  define s1 where
    "s1 = s\<lparr>orders := (orders s)(next_order_id s \<mapsto> order), next_order_id := Suc (next_order_id s)\<rparr>"
  have items1: "items_of_cart s1 cart = ?items"
    by (simp add: s1_def items_of_cart_def)
  obtain e s2 where run: "create_order_items (next_order_id s) ?items s1 = (e, s2)"
    by (cases "create_order_items (next_order_id s) ?items s1")
  have orders2: "orders s2 = orders s1"
    using create_order_items_orders [of "next_order_id s" ?items s1] by (simp add: run)
  from placed cart nonempty valid post subtotal run
  have oid: "order_id = next_order_id s"
    and s': "s' = s2\<lparr>cart_items := filter (\<lambda>i. ci_cart i \<noteq> cart) (cart_items s2)\<rparr>"
    by (auto simp: checkout_def Let_def order_def [symmetric] s1_def [symmetric] items1
          split: option.splits)
  have stored: "orders s' order_id = Some order"
    by (simp add: s' oid orders2 s1_def)
  have fee: "(o_delivery_method order = ''delivery'') = (post_delivery_method req = Some ''delivery'')"
    by (simp add: order_def split: option.splits)
  from cart_total_price_sum [OF subtotal] obtain ps where
    ps: "map (\<lambda>i. products s (ci_product i)) ?items = map Some ps"
    and sum: "subtotal = (\<Sum>(i, p)\<leftarrow>zip ?items ps. ci_quantity i * p_price p)"
    by blast
  have "o_total_price order =
          (\<Sum>(i, p)\<leftarrow>zip ?items ps. ci_quantity i * p_price p) +
          (if o_delivery_method order = ''delivery'' then delivery_fee else 0)"
    unfolding fee by (simp add: order_def sum)
  with cart stored ps show ?thesis by blast
qed

text \<open>2 Linen at 1250.00 and 1 Vinyl at 899.50, delivered: 3399.50 plus the fee.\<close>

theorem checkout_total_price_witness:
  "fst (checkout demo 7 demo_post) = Inr (OrderPlaced 2)
   \<and> map_option o_total_price (orders (snd (checkout demo 7 demo_post)) 2)
       = Some (2 * 125000 + 1 * 89950 + delivery_fee)"
proof -
  obtain s' where r: "checkout demo 7 demo_post = (Inr (OrderPlaced 2), s')"
    and d: "map_option o_delivery_method (orders s' 2) = Some ''delivery''"
    by (simp add: demo_checkout)
  from checkout_total_price [OF r] obtain cart order ps where
    c: "carts demo 7 = Some cart"
    and o: "orders s' 2 = Some order"
    and ps: "map (\<lambda>i. products demo (ci_product i)) (items_of_cart demo cart) = map Some ps"
    and t: "o_total_price order =
             (\<Sum>(i, p)\<leftarrow>zip (items_of_cart demo cart) ps. ci_quantity i * p_price p) +
             (if o_delivery_method order = ''delivery'' then delivery_fee else 0)"
    by blast
  from c have cart: "cart = 1" by (simp add: demo_def)
  from ps have "ps = [\<lparr>p_name = ''Linen'', p_price = 125000, p_stock = 3\<rparr>,
                      \<lparr>p_name = ''Vinyl'', p_price = 89950, p_stock = 5\<rparr>]"
    by (auto simp: cart items_of_cart_def demo_def demo_products_def)
  with t d o have "o_total_price order = 2 * 125000 + 1 * 89950 + delivery_fee"
    by (simp add: cart items_of_cart_def demo_def)
  with r o show ?thesis by simp
qed

section \<open>Stock reconciliation\<close>

subsection \<open>The two loops over an order's lines\<close>

lemma ordered_quantity_Nil [simp]: "ordered_quantity [] product_id = 0"
  by (simp add: ordered_quantity_def)

lemma ordered_quantity_Cons:
  "ordered_quantity (i # items) product_id =
     (if oi_product i = product_id then oi_quantity i else 0) + ordered_quantity items product_id"
  by (simp add: ordered_quantity_def)

lemma ordered_quantity_nonneg:
  "\<forall>i\<in>set items. 0 \<le> oi_quantity i \<Longrightarrow> 0 \<le> ordered_quantity items product_id"
  by (induction items) (auto simp: ordered_quantity_Cons)

lemma ordered_quantity_ge:
  "\<forall>j\<in>set items. 0 \<le> oi_quantity j \<Longrightarrow> i \<in> set items \<Longrightarrow>
     oi_quantity i \<le> ordered_quantity items (oi_product i)"
proof (induction items)
  case Nil
  then show ?case by simp
next
  case (Cons j items)
  then have rest: "0 \<le> ordered_quantity items (oi_product i)"
    by (simp add: ordered_quantity_nonneg)
  show ?case
  proof (cases "i = j")
    case True
    with rest show ?thesis by (simp add: ordered_quantity_Cons)
  next
    case False
    with Cons have "oi_quantity i \<le> ordered_quantity items (oi_product i)" by simp
    moreover from Cons.prems have "0 \<le> oi_quantity j" by simp
    ultimately show ?thesis by (simp add: ordered_quantity_Cons)
  qed
qed

lemma restocked_zero [simp]: "restocked (\<lambda>_. 0) m = m"
  by (rule ext) (simp add: restocked_def option.map_ident)

lemma restocked_upd:
  assumes "m k = Some p"
  shows "restocked g (m(k \<mapsto> p\<lparr>p_stock := p_stock p + q\<rparr>)) =
         restocked (\<lambda>x. (if k = x then q else 0) + g x) m"
  using assms by (auto simp: restocked_def fun_eq_iff)

text \<open>
  When every line refers to an existing product, quantities are non-negative, and the
  stock of each product together with all that the lines hold of it is within the range
  of the column, the returning loop runs to its end and adds to every product what the
  lines hold of it.
\<close>

lemma return_to_stock_eq:
  assumes "\<forall>i\<in>set items. \<exists>p. products s (oi_product i) = Some p \<and>
             p_stock p + ordered_quantity items (oi_product i) \<le> stock_max s"
    and "\<forall>i\<in>set items. 0 \<le> oi_quantity i"
  shows "return_to_stock items s =
           (None, s\<lparr>products := restocked (ordered_quantity items) (products s)\<rparr>)"
  using assms
proof (induction items arbitrary: s)
  case Nil
  then show ?case by simp
next
  case (Cons i items)
  from Cons.prems(1) obtain p where p: "products s (oi_product i) = Some p"
    and top: "p_stock p + ordered_quantity (i # items) (oi_product i) \<le> stock_max s"
    by auto
  have rest0: "0 \<le> ordered_quantity items (oi_product i)"
    using Cons.prems(2) by (simp add: ordered_quantity_nonneg)
  with top have room: "p_stock p + oi_quantity i \<le> stock_max s"
    by (simp add: ordered_quantity_Cons)
  define s1 where
    "s1 = s\<lparr>products := (products s)(oi_product i \<mapsto> p\<lparr>p_stock := p_stock p + oi_quantity i\<rparr>)\<rparr>"
  have p1: "products s1 = (products s)(oi_product i \<mapsto> p\<lparr>p_stock := p_stock p + oi_quantity i\<rparr>)"
    and m1: "stock_max s1 = stock_max s"
    and upd: "\<And>X. s1\<lparr>products := X\<rparr> = s\<lparr>products := X\<rparr>"
    by (simp_all add: s1_def)
  have fits: "\<forall>j\<in>set items. \<exists>q. products s1 (oi_product j) = Some q \<and>
                p_stock q + ordered_quantity items (oi_product j) \<le> stock_max s1"
  proof
    fix j assume j: "j \<in> set items"
    with Cons.prems(1) obtain q where q: "products s (oi_product j) = Some q"
      and qtop: "p_stock q + ordered_quantity (i # items) (oi_product j) \<le> stock_max s"
      by auto
    show "\<exists>q. products s1 (oi_product j) = Some q \<and>
            p_stock q + ordered_quantity items (oi_product j) \<le> stock_max s1"
    proof (cases "oi_product j = oi_product i")
      case True
      with p top show ?thesis by (simp add: p1 m1 ordered_quantity_Cons)
    next
      case False
      with q qtop show ?thesis by (simp add: p1 m1 ordered_quantity_Cons)
    qed
  qed
  have qty: "\<forall>j\<in>set items. 0 \<le> oi_quantity j"
    using Cons.prems(2) by simp
  have "restocked (ordered_quantity items) (products s1) =
        restocked (ordered_quantity (i # items)) (products s)"
    using p by (auto simp: p1 restocked_def fun_eq_iff ordered_quantity_Cons)
  with Cons.IH [OF fits qty] have "return_to_stock items s1 =
      (None, s\<lparr>products := restocked (ordered_quantity (i # items)) (products s)\<rparr>)"
    by (simp only: upd)
  with p room show ?case by (simp add: s1_def)
qed

lemma take_from_stock_restocked:
  assumes "products t = restocked (ordered_quantity items) m"
    and "\<forall>i\<in>set items. \<exists>p. m (oi_product i) = Some p \<and> 0 \<le> p_stock p"
    and "\<forall>i\<in>set items. 0 \<le> oi_quantity i"
  shows "take_from_stock items t = (None, t\<lparr>products := m\<rparr>)"
  using assms
proof (induction items arbitrary: t)
  case Nil
  then show ?case by simp
next
  case (Cons i items)
  from Cons.prems obtain p where p: "m (oi_product i) = Some p" and p0: "0 \<le> p_stock p"
    by auto
  have rest0: "0 \<le> ordered_quantity items (oi_product i)"
    using Cons.prems by (simp add: ordered_quantity_nonneg)
  let ?p' = "p\<lparr>p_stock := p_stock p + (oi_quantity i + ordered_quantity items (oi_product i))\<rparr>"
  have cur: "products t (oi_product i) = Some ?p'"
    using Cons.prems(1) p by (simp add: restocked_def ordered_quantity_Cons)
  let ?t1 = "t\<lparr>products := (products t)(oi_product i \<mapsto> ?p'\<lparr>p_stock := p_stock ?p' - oi_quantity i\<rparr>)\<rparr>"
  have "products ?t1 = restocked (ordered_quantity items) m"
    using Cons.prems(1) p by (auto simp: restocked_def fun_eq_iff ordered_quantity_Cons)
  from Cons.IH [OF this] Cons.prems
  have "take_from_stock items ?t1 = (None, ?t1\<lparr>products := m\<rparr>)" by simp
  with cur p0 rest0 show ?case by simp
qed




subsection \<open>Cancellation by the user\<close>




subsection \<open>Status changes by the administrator\<close>

text \<open>
  C6, as stated, at a concrete store. Order 1 has status \<open>new\<close> and holds 2 Linen and
  1 Vinyl; the stock of Vinyl is at the upper end of the column's range. Setting the
  status to \<open>cancelled\<close> fails: the quantity of the Vinyl line is not added to the stock of
  Vinyl, the status is not changed, and the stock of Linen is left at 5.
\<close>

theorem admin_cancel_fails:
  "map_option o_status (orders demo_full 1) = Some ''new''
   \<and> fst (admin_order_detail demo_full 1 (Some ''cancelled'')) = Inl OutOfRange
   \<and> map_option p_stock (products demo_full 2) = Some 9223372036854775807
   \<and> map_option p_stock (products (snd (admin_order_detail demo_full 1 (Some ''cancelled''))) 2)
       = Some 9223372036854775807
   \<and> map_option p_stock (products (snd (admin_order_detail demo_full 1 (Some ''cancelled''))) 1)
       = Some 5
   \<and> map_option o_status (orders (snd (admin_order_detail demo_full 1 (Some ''cancelled''))) 1)
       = Some ''new''"
  by (simp add: admin_order_detail_def items_of_order_def demo_full_def demo_def
        demo_order_def demo_products_def)

text \<open>
  C6, amended. Take an order that is not cancelled, whose lines have non-negative
  quantities and refer to existing products with non-negative stock, such that the
  stock of each product together with the quantity the order's lines hold of it is
  within the range of the stock column. Setting its status to \<open>cancelled\<close> succeeds and
  adds to every product's stock the quantity the order's lines hold of it. In the store
  this leaves, every line's quantity is within its product's stock; setting the status
  of the cancelled order to any other state \<open>ns\<close> succeeds, takes the same quantities
  off again, and leaves the product table exactly as it was before the cancellation.
\<close>

theorem cancel_restore_round_trip:
  assumes order: "orders s order_id = Some order"
    and old: "o_status order \<noteq> ''cancelled''"
    and ns: "ns \<noteq> []" "ns \<noteq> ''cancelled''"
    and fk: "\<forall>i\<in>set (items_of_order s order_id).
               \<exists>p. products s (oi_product i) = Some p \<and> 0 \<le> p_stock p \<and>
                   p_stock p + ordered_quantity (items_of_order s order_id) (oi_product i)
                     \<le> stock_max s"
    and qty: "\<forall>i\<in>set (items_of_order s order_id). 0 \<le> oi_quantity i"
  shows "\<exists>s1 s2.
           admin_order_detail s order_id (Some ''cancelled'') = (Inr (), s1) \<and>
           products s1 = restocked (ordered_quantity (items_of_order s order_id)) (products s) \<and>
           orders s1 order_id = Some (order\<lparr>o_status := ''cancelled''\<rparr>) \<and>
           items_of_order s1 order_id = items_of_order s order_id \<and>
           (\<forall>i\<in>set (items_of_order s1 order_id). \<not> short_of_stock s1 i) \<and>
           admin_order_detail s1 order_id (Some ns) = (Inr (), s2) \<and>
           products s2 =
             restocked (\<lambda>product_id. - ordered_quantity (items_of_order s order_id) product_id)
               (products s1) \<and>
           orders s2 order_id = Some (order\<lparr>o_status := ns\<rparr>) \<and>
           products s2 = products s"
proof -
  let ?items = "items_of_order s order_id"
  let ?s1 = "s\<lparr>products := restocked (ordered_quantity ?items) (products s),
               orders := (orders s)(order_id \<mapsto> order\<lparr>o_status := ''cancelled''\<rparr>)\<rparr>"
  let ?s2 = "s\<lparr>orders := (orders s)(order_id \<mapsto> order\<lparr>o_status := ns\<rparr>)\<rparr>"
  have fits: "\<forall>i\<in>set ?items. \<exists>p. products s (oi_product i) = Some p \<and>
                p_stock p + ordered_quantity ?items (oi_product i) \<le> stock_max s"
    using fk by blast
  have step1: "admin_order_detail s order_id (Some ''cancelled'') = (Inr (), ?s1)"
    using order old return_to_stock_eq [OF fits qty]
    by (simp add: admin_order_detail_def save_order_def)
  have items1: "items_of_order ?s1 order_id = ?items"
    by (simp add: items_of_order_def)
  have fits: "\<not> short_of_stock ?s1 i" if "i \<in> set ?items" for i
  proof -
    from that fk obtain p where p: "products s (oi_product i) = Some p" "0 \<le> p_stock p"
      by auto
    from ordered_quantity_ge [OF qty that] p show ?thesis
      by (simp add: short_of_stock_def restocked_def)
  qed
  have fk0: "\<forall>i\<in>set ?items. \<exists>p. products s (oi_product i) = Some p \<and> 0 \<le> p_stock p"
    using fk by blast
  have "take_from_stock ?items ?s1 = (None, ?s1\<lparr>products := products s\<rparr>)"
    by (rule take_from_stock_restocked) (use fk0 qty in simp_all)
  then have step2: "admin_order_detail ?s1 order_id (Some ns) = (Inr (), ?s2)"
    using ns by (simp add: admin_order_detail_def save_order_def items1)
  have undo: "restocked (\<lambda>product_id. - ordered_quantity ?items product_id)
                (restocked (ordered_quantity ?items) (products s)) = products s"
    by (rule ext) (simp add: restocked_def option.map_comp comp_def option.map_ident)
  show ?thesis
  proof (intro exI conjI)
    show "admin_order_detail s order_id (Some ''cancelled'') = (Inr (), ?s1)"
      by (rule step1)
    show "admin_order_detail ?s1 order_id (Some ns) = (Inr (), ?s2)"
      by (rule step2)
    show "products ?s2 =
            restocked (\<lambda>product_id. - ordered_quantity ?items product_id) (products ?s1)"
      by (simp add: undo)
    show "items_of_order ?s1 order_id = ?items"
      by (rule items1)
    show "\<forall>i\<in>set (items_of_order ?s1 order_id). \<not> short_of_stock ?s1 i"
      unfolding items1 using fits by blast
  qed simp_all
qed

text \<open>Linen and Vinyl go from 3 and 5 to 5 and 6 and back.\<close>

theorem cancel_restore_round_trip_witness:
  "fst (admin_order_detail demo 1 (Some ''cancelled'')) = Inr ()
   \<and> map_option p_stock (products (snd (admin_order_detail demo 1 (Some ''cancelled''))) 1) = Some 5
   \<and> map_option p_stock (products (snd (admin_order_detail demo 1 (Some ''cancelled''))) 2) = Some 6
   \<and> fst (admin_order_detail (snd (admin_order_detail demo 1 (Some ''cancelled''))) 1
           (Some ''processing'')) = Inr ()
   \<and> products (snd (admin_order_detail (snd (admin_order_detail demo 1 (Some ''cancelled''))) 1
           (Some ''processing''))) = products demo"
proof -
  have h1: "orders demo 1 = Some (demo_order ''new'')"
    and h2: "o_status (demo_order ''new'') \<noteq> ''cancelled''"
    and h3: "''processing'' \<noteq> []" "''processing'' \<noteq> ''cancelled''"
    and h4: "\<forall>i\<in>set (items_of_order demo 1).
               \<exists>p. products demo (oi_product i) = Some p \<and> 0 \<le> p_stock p \<and>
                   p_stock p + ordered_quantity (items_of_order demo 1) (oi_product i)
                     \<le> stock_max demo"
    and h5: "\<forall>i\<in>set (items_of_order demo 1). 0 \<le> oi_quantity i"
    by (simp_all add: demo_def demo_order_def demo_products_def items_of_order_def
          ordered_quantity_def)
  from cancel_restore_round_trip [OF h1 h2 h3 h4 h5] obtain s1 s2 where
    a: "admin_order_detail demo 1 (Some ''cancelled'') = (Inr (), s1)"
    and b: "products s1 = restocked (ordered_quantity (items_of_order demo 1)) (products demo)"
    and c: "admin_order_detail s1 1 (Some ''processing'') = (Inr (), s2)"
    and d: "products s2 = products demo"
    by blast
  have "map_option p_stock (products s1 1) = Some 5" "map_option p_stock (products s1 2) = Some 6"
    unfolding b
    by (simp_all add: restocked_def ordered_quantity_def items_of_order_def demo_def demo_products_def)
  with a c d show ?thesis by simp
qed



subsection \<open>Failures and the store they leave\<close>

text \<open>
  The loop that creates order lines stops early on a missing product alone; the loop
  that returns lines to the stock can also stop on a save above the column's range, and
  the restoring loop on a line that is short of stock. A failure of \<open>checkout\<close>,
  \<open>cancel_order\<close>, \<open>admin_order_delete\<close> or \<open>admin_order_detail\<close> other than these
  leaves the store exactly as it was.
\<close>

lemma create_order_items_error:
  "create_order_items order_id items s = (Some e, s') \<Longrightarrow> e = DoesNotExist"
  by (induction items arbitrary: s) (auto split: option.splits)

lemma return_to_stock_error:
  "return_to_stock items s = (Some e, s') \<Longrightarrow> e = DoesNotExist \<or> e = OutOfRange"
  by (induction items arbitrary: s) (auto split: option.splits if_splits)

lemma take_from_stock_error:
  "take_from_stock items s = (Some e, s') \<Longrightarrow>
     e = DoesNotExist \<or> (\<exists>n. e = InsufficientStock n)"
  by (induction items arbitrary: s) (auto split: option.splits if_splits)

lemma failure_leaves_store:
  assumes "e \<noteq> DoesNotExist" and "e \<noteq> OutOfRange"
  shows "checkout s user req = (Inl e, s') \<Longrightarrow> s' = s"
    and "cancel_order s user order_id = (Inl e, s') \<Longrightarrow> s' = s"
    and "admin_order_delete s order_id = (Inl e, s') \<Longrightarrow> s' = s"
    and "admin_order_detail s order_id new_status = (Inl e, s') \<Longrightarrow>
           \<forall>n. e \<noteq> InsufficientStock n \<Longrightarrow> s' = s"
proof -
  show "s' = s" if "checkout s user req = (Inl e, s')"
    using that assms
    by (auto simp: checkout_def Let_def dest: create_order_items_error
          split: option.splits if_splits sum.splits prod.splits)
  show "s' = s" if "cancel_order s user order_id = (Inl e, s')"
    using that assms
    by (auto simp: cancel_order_def dest: return_to_stock_error
          split: option.splits if_splits prod.splits)
  show "s' = s" if "admin_order_delete s order_id = (Inl e, s')"
    using that assms
    by (auto simp: admin_order_delete_def dest: return_to_stock_error
          split: option.splits if_splits prod.splits)
  show "s' = s" if "admin_order_detail s order_id new_status = (Inl e, s')"
    and "\<forall>n. e \<noteq> InsufficientStock n"
    using that assms
    by (auto simp: admin_order_detail_def Let_def
          dest: return_to_stock_error take_from_stock_error
          split: option.splits if_splits prod.splits)
qed

text \<open>
  C5, at a concrete store. The cancelled order has the lines 2 Linen, 4 Cork; the
  stocks are 3 and 0. Setting its status to \<open>new\<close> fails with \<open>InsufficientStock\<close> on
  Cork, the status stays \<open>cancelled\<close>, and yet the stock of Linen has gone from 3 to 1:
  the loop had already taken the first line from the stock and saved it when the second
  line stopped the view.
\<close>

theorem restore_partial_decrement:
  "fst (admin_order_detail demo_cancelled 1 (Some ''new'')) = Inl (InsufficientStock ''Cork'')
   \<and> map_option p_stock (products demo_cancelled 1) = Some 3
   \<and> map_option p_stock (products (snd (admin_order_detail demo_cancelled 1 (Some ''new''))) 1)
       = Some 1
   \<and> map_option o_status (orders (snd (admin_order_detail demo_cancelled 1 (Some ''new''))) 1)
       = Some ''cancelled''"
  by (simp add: admin_order_detail_def items_of_order_def demo_cancelled_def demo_def
        demo_order_def demo_products_def)

section \<open>Stock is never negative\<close>

lemma lines_ok_products [simp]: "lines_ok (s\<lparr>products := m\<rparr>) = lines_ok s"
  by (simp add: lines_ok_def)

lemma lines_ok_orders [simp]: "lines_ok (s\<lparr>orders := m\<rparr>) = lines_ok s"
  by (simp add: lines_ok_def)

lemma stock_nonneg_orders [simp]: "stock_nonneg (s\<lparr>orders := m\<rparr>) = stock_nonneg s"
  by (simp add: stock_nonneg_def)

lemma stock_nonneg_cart_items [simp]: "stock_nonneg (s\<lparr>cart_items := m\<rparr>) = stock_nonneg s"
  by (simp add: stock_nonneg_def)

lemma stock_nonneg_order_items [simp]: "stock_nonneg (s\<lparr>order_items := m\<rparr>) = stock_nonneg s"
  by (simp add: stock_nonneg_def)

subsection \<open>Cart mutations keep the constraints\<close>

lemma save_cart_item_ok:
  assumes ok: "lines_ok s" and mem: "item \<in> set (cart_items s)" and q: "0 \<le> q"
  shows "lines_ok (save_cart_item (item\<lparr>ci_quantity := q\<rparr>) s)"
proof -
  let ?f = "\<lambda>i. if ci_id i = ci_id (item\<lparr>ci_quantity := q\<rparr>) then item\<lparr>ci_quantity := q\<rparr> else i"
  let ?s' = "save_cart_item (item\<lparr>ci_quantity := q\<rparr>) s"
  from ok have inj: "inj_on ci_id (set (cart_items s))"
    by (simp add: lines_ok_def distinct_map)
  have same: "\<And>i. i \<in> set (cart_items s) \<Longrightarrow> ci_id i = ci_id item \<Longrightarrow> i = item"
    using inj mem by (auto dest: inj_onD)
  have fields: "cart_items ?s' = map ?f (cart_items s)"
    "next_cart_item_id ?s' = next_cart_item_id s" "order_items ?s' = order_items s"
    by (simp_all add: save_cart_item_def)
  have ids: "map ci_id (map ?f (cart_items s)) = map ci_id (cart_items s)"
    by simp
  have pairs: "map (\<lambda>i. (ci_cart i, ci_product i)) (map ?f (cart_items s)) =
               map (\<lambda>i. (ci_cart i, ci_product i)) (cart_items s)"
    by (auto dest!: same)
  have qs: "\<forall>i\<in>set (map ?f (cart_items s)). 0 \<le> ci_quantity i"
    using ok q by (auto simp: lines_ok_def)
  have idb: "\<forall>i\<in>set (map ?f (cart_items s)). ci_id i < next_cart_item_id s"
    using ok mem by (auto simp: lines_ok_def)
  from ok have rest: "distinct (map ci_id (cart_items s))"
    "distinct (map (\<lambda>i. (ci_cart i, ci_product i)) (cart_items s))"
    "\<forall>i\<in>set (order_items s). 0 \<le> oi_quantity i"
    by (simp_all add: lines_ok_def)
  show ?thesis
    unfolding lines_ok_def fields ids pairs
    using rest qs idb by blast
qed

lemma delete_cart_item_ok:
  assumes "lines_ok s"
  shows "lines_ok (delete_cart_item item s)"
  using assms by (auto simp: lines_ok_def delete_cart_item_def distinct_map_filter)

lemma filter_cart_items_ok:
  assumes "lines_ok s"
  shows "lines_ok (s\<lparr>cart_items := filter P (cart_items s)\<rparr>)"
  using assms by (auto simp: lines_ok_def distinct_map_filter)

lemma get_or_create_cart_ok:
  "lines_ok (snd (get_or_create_cart s user)) = lines_ok s"
  "products (snd (get_or_create_cart s user)) = products s"
  by (simp_all add: get_or_create_cart_def lines_ok_def split: option.splits)

lemma get_or_create_cart_item_ok:
  assumes ok: "lines_ok s"
    and res: "get_or_create_cart_item s cart product_id = (item, created, s2)"
  shows "lines_ok s2 \<and> item \<in> set (cart_items s2) \<and> 0 \<le> ci_quantity item
         \<and> products s2 = products s"
proof (cases "find (\<lambda>i. ci_cart i = cart \<and> ci_product i = product_id) (cart_items s)")
  case None
  with res have item: "item = \<lparr>ci_id = next_cart_item_id s, ci_cart = cart,
                               ci_product = product_id, ci_quantity = 1\<rparr>"
    and s2: "s2 = s\<lparr>cart_items := cart_items s @ [item],
                     next_cart_item_id := Suc (next_cart_item_id s)\<rparr>"
    by (auto simp: get_or_create_cart_item_def Let_def)
  from None have "(cart, product_id) \<notin> set (map (\<lambda>i. (ci_cart i, ci_product i)) (cart_items s))"
    by (auto simp: find_None_all)
  then have pair: "(ci_cart item, ci_product item)
                     \<notin> set (map (\<lambda>i. (ci_cart i, ci_product i)) (cart_items s))"
    by (simp add: item)
  from ok have "next_cart_item_id s \<notin> set (map ci_id (cart_items s))"
    by (auto simp: lines_ok_def)
  then have fresh: "ci_id item \<notin> set (map ci_id (cart_items s))"
    by (simp add: item)
  have one: "0 \<le> ci_quantity item" "ci_id item < Suc (next_cart_item_id s)"
    by (simp_all add: item)
  from ok pair fresh one have "lines_ok s2"
    unfolding lines_ok_def s2 by (auto simp: less_Suc_eq)
  with one show ?thesis by (simp add: s2)
next
  case (Some found)
  then have "found \<in> set (cart_items s)" by (auto dest: find_Some_mem)
  with Some res ok show ?thesis
    by (auto simp: get_or_create_cart_item_def lines_ok_def)
qed

lemma add_to_cart_ok:
  assumes "store_ok s"
  shows "store_ok (snd (add_to_cart s user product_id))"
proof (cases "products s product_id")
  case None
  with assms show ?thesis by (simp add: add_to_cart_def)
next
  case (Some product)
  obtain cart s1 where c: "get_or_create_cart s user = (cart, s1)"
    by (cases "get_or_create_cart s user")
  obtain item created s2 where i: "get_or_create_cart_item s1 cart product_id = (item, created, s2)"
    by (cases "get_or_create_cart_item s1 cart product_id")
  from assms get_or_create_cart_ok [of s user] c
  have ok1: "lines_ok s1" and p1: "products s1 = products s"
    by (simp_all add: store_ok_def)
  from get_or_create_cart_item_ok [OF ok1 i]
  have ok2: "lines_ok s2" and mem: "item \<in> set (cart_items s2)"
    and q: "0 \<le> ci_quantity item" and p2: "products s2 = products s"
    by (simp_all add: p1)
  from assms p2 have n2: "stock_nonneg s2"
    by (simp add: store_ok_def stock_nonneg_def)
  have n3: "\<And>x. stock_nonneg (save_cart_item x s2)" "\<And>x. stock_nonneg (delete_cart_item x s2)"
    using n2 by (simp_all add: save_cart_item_def delete_cart_item_def)
  from q have "0 \<le> ci_quantity item + 1" by simp
  from save_cart_item_ok [OF ok2 mem this] delete_cart_item_ok [OF ok2, of item] ok2 n2 n3 assms
  show ?thesis
    by (simp add: add_to_cart_def Some c i store_ok_def)
qed

lemma get_cart_item_mem: "get_cart_item s user item_id = Some item \<Longrightarrow> item \<in> set (cart_items s)"
  by (auto simp: get_cart_item_def dest: find_Some_mem)

lemma update_cart_item_ok:
  assumes "store_ok s"
  shows "store_ok (snd (update_cart_item s user item_id quantity))"
proof (cases "get_cart_item s user item_id")
  case None
  with assms show ?thesis by (simp add: update_cart_item_def)
next
  case (Some item)
  from assms have ok: "lines_ok s" and n: "stock_nonneg s" by (simp_all add: store_ok_def)
  have n3: "\<And>x. stock_nonneg (save_cart_item x s)" "\<And>x. stock_nonneg (delete_cart_item x s)"
    using n by (simp_all add: save_cart_item_def delete_cart_item_def)
  have "0 < quantity \<Longrightarrow> lines_ok (save_cart_item (item\<lparr>ci_quantity := quantity\<rparr>) s)"
    by (rule save_cart_item_ok [OF ok get_cart_item_mem [OF Some]]) simp
  with delete_cart_item_ok [OF ok, of item] assms n3 show ?thesis
    by (auto simp: update_cart_item_def Some store_ok_def split: option.splits)
qed

lemma remove_from_cart_ok:
  assumes "store_ok s"
  shows "store_ok (snd (remove_from_cart s user item_id))"
  using assms delete_cart_item_ok [of s]
  by (auto simp: remove_from_cart_def store_ok_def delete_cart_item_def stock_nonneg_def
      split: option.splits)

subsection \<open>Cancelling, restoring and deleting orders keep the constraints\<close>

lemma return_to_stock_cart_items [simp]:
  "cart_items (snd (return_to_stock items s)) = cart_items s"
  by (induction items arbitrary: s) (auto split: option.splits)

lemma return_to_stock_next_cart_item_id [simp]:
  "next_cart_item_id (snd (return_to_stock items s)) = next_cart_item_id s"
  by (induction items arbitrary: s) (auto split: option.splits)

lemma return_to_stock_order_items [simp]:
  "order_items (snd (return_to_stock items s)) = order_items s"
  by (induction items arbitrary: s) (auto split: option.splits)

lemma take_from_stock_cart_items [simp]:
  "cart_items (snd (take_from_stock items s)) = cart_items s"
  by (induction items arbitrary: s) (auto split: option.splits)

lemma take_from_stock_next_cart_item_id [simp]:
  "next_cart_item_id (snd (take_from_stock items s)) = next_cart_item_id s"
  by (induction items arbitrary: s) (auto split: option.splits)

lemma take_from_stock_order_items [simp]:
  "order_items (snd (take_from_stock items s)) = order_items s"
  by (induction items arbitrary: s) (auto split: option.splits)

lemma stock_nonneg_upd:
  assumes "stock_nonneg s" and "0 \<le> p_stock p"
  shows "stock_nonneg (s\<lparr>products := (products s)(k \<mapsto> p)\<rparr>)"
  using assms by (simp add: stock_nonneg_def)

lemma stock_nonnegD: "stock_nonneg s \<Longrightarrow> products s k = Some p \<Longrightarrow> 0 \<le> p_stock p"
  by (simp add: stock_nonneg_def)

lemma return_to_stock_nonneg:
  assumes "stock_nonneg s" and "\<forall>i\<in>set items. 0 \<le> oi_quantity i"
  shows "stock_nonneg (snd (return_to_stock items s))"
  using assms
proof (induction items arbitrary: s)
  case Nil
  then show ?case by simp
next
  case (Cons i items)
  show ?case
  proof (cases "products s (oi_product i)")
    case None
    with Cons.prems show ?thesis by simp
  next
    case (Some p)
    show ?thesis
    proof (cases "p_stock p + oi_quantity i > stock_max s")
      case True
      with Some Cons.prems show ?thesis by simp
    next
      case False
      from Some Cons.prems have "0 \<le> p_stock p + oi_quantity i"
        by (auto dest: stock_nonnegD)
      then have "stock_nonneg
          (s\<lparr>products := (products s)(oi_product i \<mapsto> p\<lparr>p_stock := p_stock p + oi_quantity i\<rparr>)\<rparr>)"
        using Cons.prems(1) by (intro stock_nonneg_upd) simp_all
      with Cons.IH Cons.prems(2) Some False show ?thesis by simp
    qed
  qed
qed

lemma take_from_stock_nonneg:
  assumes "stock_nonneg s"
  shows "stock_nonneg (snd (take_from_stock items s))"
  using assms
proof (induction items arbitrary: s)
  case Nil
  then show ?case by simp
next
  case (Cons i items)
  show ?case
  proof (cases "products s (oi_product i)")
    case None
    with Cons.prems show ?thesis by simp
  next
    case (Some p)
    show ?thesis
    proof (cases "oi_quantity i > p_stock p")
      case True
      with Some Cons.prems show ?thesis by simp
    next
      case False
      then have "stock_nonneg
          (s\<lparr>products := (products s)(oi_product i \<mapsto> p\<lparr>p_stock := p_stock p - oi_quantity i\<rparr>)\<rparr>)"
        using Cons.prems by (intro stock_nonneg_upd) simp_all
      with Cons.IH Some False show ?thesis by simp
    qed
  qed
qed

lemma items_of_order_nonneg:
  "lines_ok s \<Longrightarrow> \<forall>i\<in>set (items_of_order s order_id). 0 \<le> oi_quantity i"
  by (simp add: lines_ok_def items_of_order_def)

lemma return_to_stock_ok:
  assumes "store_ok s"
  shows "store_ok (snd (return_to_stock (items_of_order s order_id) s))"
proof -
  from assms have ok: "lines_ok s" and n: "stock_nonneg s" by (simp_all add: store_ok_def)
  have "stock_nonneg (snd (return_to_stock (items_of_order s order_id) s))"
    by (rule return_to_stock_nonneg [OF n items_of_order_nonneg [OF ok]])
  moreover have "lines_ok (snd (return_to_stock (items_of_order s order_id) s))"
    using ok by (simp add: lines_ok_def)
  ultimately show ?thesis by (simp add: store_ok_def)
qed

lemma take_from_stock_ok:
  assumes "store_ok s"
  shows "store_ok (snd (take_from_stock items s))"
proof -
  from assms have ok: "lines_ok s" and n: "stock_nonneg s" by (simp_all add: store_ok_def)
  have "lines_ok (snd (take_from_stock items s))"
    using ok by (simp add: lines_ok_def)
  with take_from_stock_nonneg [OF n, of items] show ?thesis by (simp add: store_ok_def)
qed

lemma save_order_ok [simp]: "store_ok (save_order order_id order s) = store_ok s"
  by (simp add: save_order_def store_ok_def)

lemma cancel_order_ok:
  assumes "store_ok s"
  shows "store_ok (snd (cancel_order s user order_id))"
  using assms return_to_stock_ok [OF assms, of order_id]
  by (auto simp: cancel_order_def split: option.splits prod.splits)

lemma admin_order_detail_ok:
  assumes "store_ok s"
  shows "store_ok (snd (admin_order_detail s order_id new_status))"
  using assms return_to_stock_ok [OF assms, of order_id]
    take_from_stock_ok [OF assms, of "items_of_order s order_id"]
  by (auto simp: admin_order_detail_def Let_def split: option.splits prod.splits)

lemma admin_order_delete_ok:
  assumes "store_ok s"
  shows "store_ok (snd (admin_order_delete s order_id))"
proof (cases "orders s order_id")
  case None
  with assms show ?thesis by (simp add: admin_order_delete_def)
next
  case (Some order)
  define r where "r = (if o_status order \<noteq> ''cancelled''
                 then return_to_stock (items_of_order s order_id) s else (None, s))"
  have ok: "store_ok (snd r)"
    using assms return_to_stock_ok [OF assms, of order_id] by (simp add: r_def)
  have del: "\<And>t. store_ok t \<Longrightarrow>
     store_ok (t\<lparr>orders := (orders t)(order_id := None),
                order_items := filter (\<lambda>i. oi_order i \<noteq> order_id) (order_items t)\<rparr>)"
    by (simp add: store_ok_def lines_ok_def)
  show ?thesis
    using ok del [OF ok] Some
    by (cases r) (auto simp: admin_order_delete_def r_def [symmetric] split: option.splits)
qed

subsection \<open>Checkout keeps the constraints\<close>

lemma distinct_cart_lines:
  assumes "distinct (map (\<lambda>i. (ci_cart i, ci_product i)) items)"
  shows "distinct (map ci_product (filter (\<lambda>i. ci_cart i = cart) items))"
  using assms by (induction items) (auto simp: image_iff)

lemma list_all2_freezes_quantity:
  "list_all2 (freezes s order_id) items new \<Longrightarrow> \<forall>i\<in>set items. 0 \<le> ci_quantity i \<Longrightarrow>
     \<forall>x\<in>set new. 0 \<le> oi_quantity x"
  by (induction rule: list_all2_induct) (auto simp: freezes_def)

lemma create_order_items_ok:
  assumes ok: "store_ok s"
    and valid: "check_stock s items = None"
    and one_line: "distinct (map ci_product items)"
    and qty: "\<forall>i\<in>set items. 0 \<le> ci_quantity i"
  shows "store_ok (snd (create_order_items order_id items s))"
proof -
  from valid have enough:
    "\<forall>i\<in>set items. \<exists>p. products s (ci_product i) = Some p \<and> ci_quantity i \<le> p_stock p"
    by (simp add: check_stock_None)
  then have fk: "\<forall>i\<in>set items. products s (ci_product i) \<noteq> None" by auto
  from create_order_items_eq [OF fk, of order_id] obtain new where
    new: "list_all2 (freezes s order_id) items new"
    and run: "create_order_items order_id items s =
             (None, s\<lparr>order_items := order_items s @ new,
                      products := restocked (\<lambda>x. - cart_quantity items x) (products s)\<rparr>)"
    by blast
  from ok have n: "stock_nonneg s" and l: "lines_ok s" by (simp_all add: store_ok_def)
  have "0 \<le> p_stock p - cart_quantity items k" if "products s k = Some p" for k p
  proof (cases "k \<in> ci_product ` set items")
    case True
    then obtain i where i: "i \<in> set items" "k = ci_product i" by auto
    with enough that have "ci_quantity i \<le> p_stock p" by auto
    with i one_line show ?thesis by (simp add: cart_quantity_distinct)
  next
    case False
    with n that show ?thesis by (simp add: cart_quantity_absent stock_nonneg_def)
  qed
  then have "stock_nonneg (s\<lparr>order_items := order_items s @ new,
                      products := restocked (\<lambda>x. - cart_quantity items x) (products s)\<rparr>)"
    by (auto simp: stock_nonneg_def restocked_def)
  moreover have "lines_ok (s\<lparr>order_items := order_items s @ new,
                      products := restocked (\<lambda>x. - cart_quantity items x) (products s)\<rparr>)"
    using l list_all2_freezes_quantity [OF new qty] by (auto simp: lines_ok_def)
  ultimately show ?thesis by (simp add: run store_ok_def)
qed

lemma checkout_ok:
  assumes "store_ok s"
  shows "store_ok (snd (checkout s user req))"
proof (cases "carts s user")
  case None
  with assms show ?thesis by (simp add: checkout_def)
next
  case (Some cart)
  let ?items = "items_of_cart s cart"
  show ?thesis
  proof (cases "?items \<noteq> [] \<and> check_stock s ?items = None \<and> is_post req
                \<and> (\<exists>t. cart_total_price s ?items = Inr t)")
    case False
    with assms Some show ?thesis
      by (auto simp: checkout_def split: option.splits sum.splits)
  next
    case True
    then obtain subtotal where subtotal: "cart_total_price s ?items = Inr subtotal" by blast
    define order where
      "order = \<lparr>o_user = user, o_status = ''new'',
              o_delivery_method = (case post_delivery_method req of None \<Rightarrow> ''pickup'' | Some d \<Rightarrow> d),
              o_payment_method = (case post_payment_method req of None \<Rightarrow> ''online'' | Some p \<Rightarrow> p),
              o_total_price = subtotal +
                (if post_delivery_method req = Some ''delivery'' then delivery_fee else 0)\<rparr>"
    define s1 where
      "s1 = s\<lparr>orders := (orders s)(next_order_id s \<mapsto> order), next_order_id := Suc (next_order_id s)\<rparr>"
    have items1: "items_of_cart s1 cart = ?items"
      by (simp add: s1_def items_of_cart_def)
    from assms have ok1: "store_ok s1"
      by (simp add: s1_def store_ok_def lines_ok_def stock_nonneg_def)
    have valid1: "check_stock s1 ?items = None"
      using True by (simp add: check_stock_None s1_def)
    from assms have one_line: "distinct (map ci_product ?items)"
      and qty: "\<forall>i\<in>set ?items. 0 \<le> ci_quantity i"
      by (simp_all add: store_ok_def lines_ok_def items_of_cart_def distinct_cart_lines)
    define s2 where "s2 = snd (create_order_items (next_order_id s) ?items s1)"
    have ok2: "store_ok s2"
      unfolding s2_def by (rule create_order_items_ok [OF ok1 valid1 one_line qty])
    then have "store_ok (s2\<lparr>cart_items := filter (\<lambda>i. ci_cart i \<noteq> cart) (cart_items s2)\<rparr>)"
      using filter_cart_items_ok [of s2] by (simp add: store_ok_def)
    with ok2 True Some subtotal show ?thesis
      by (auto simp: checkout_def Let_def order_def [symmetric] s1_def [symmetric] items1
            s2_def split: prod.splits option.splits)
  qed
qed

lemma apply_op_ok: "store_ok s \<Longrightarrow> store_ok (apply_op s op)"
  by (cases op)
    (simp_all add: add_to_cart_ok update_cart_item_ok remove_from_cart_ok checkout_ok
       cancel_order_ok admin_order_detail_ok admin_order_delete_ok)

lemma foldl_apply_op_ok: "store_ok s \<Longrightarrow> store_ok (foldl apply_op s ops)"
  by (induction ops arbitrary: s) (simp_all add: apply_op_ok)

subsection \<open>Any sequence of operations\<close>

text \<open>
  C1. Start from a store in which every stock is non-negative and the cart and order
  lines satisfy the constraints of the schema. After each operation of any sequence of
  \<open>add_to_cart\<close>, \<open>update_cart_item\<close>, \<open>remove_from_cart\<close>, \<open>checkout\<close>, \<open>cancel_order\<close>,
  status changes by the administrator and order deletions, whether the operation
  succeeds or fails, every product's stock is still non-negative.
\<close>

theorem stock_never_negative:
  assumes "store_ok s"
  shows "\<forall>k\<le>length ops. stock_nonneg (foldl apply_op s (take k ops))"
  using foldl_apply_op_ok [OF assms] by (simp add: store_ok_def)

text \<open>
  The small shop satisfies the constraints. User 7 checks out, the administrator cancels
  order 1 and then deletes order 2: the stock of Linen goes from 3 to 1, to 3 and to 5,
  and is non-negative at the end.
\<close>

lemma demo_ok: "store_ok demo"
  by (auto simp: store_ok_def stock_nonneg_def lines_ok_def demo_def demo_products_def
      split: if_splits)

lemma demo_run:
  "map_option p_name
     (products
        (foldl apply_op demo
           [Checkout 7 demo_post, AdminSetStatus 1 (Some ''cancelled''), AdminDeleteOrder 2]) 1)
   = Some ''Linen''"
  by (simp add: demo_checkout)
    (simp add: admin_order_detail_def admin_order_delete_def items_of_order_def save_order_def
       demo_def demo_order_def)

theorem stock_never_negative_witness:
  "\<exists>p. products
         (foldl apply_op demo
            [Checkout 7 demo_post, AdminSetStatus 1 (Some ''cancelled''), AdminDeleteOrder 2]) 1
        = Some p
       \<and> p_name p = ''Linen'' \<and> 0 \<le> p_stock p"
proof -
  let ?ops = "[Checkout 7 demo_post, AdminSetStatus 1 (Some ''cancelled''), AdminDeleteOrder 2]"
  from demo_run obtain p where p: "products (foldl apply_op demo ?ops) 1 = Some p"
    and n: "p_name p = ''Linen''"
    by auto
  from stock_never_negative [OF demo_ok, of ?ops]
  have "stock_nonneg (foldl apply_op demo (take (length ?ops) ?ops))"
    by blast
  then have "stock_nonneg (foldl apply_op demo ?ops)"
    by simp
  with p have "0 \<le> p_stock p"
    by (simp add: stock_nonneg_def)
  with p n show ?thesis by blast
qed

end
